theory Spec2Isabelle
  imports Main
begin

section \<open>Sockets and errors\<close>

text \<open>
  A \<open>shared_ptr<ChatSession>\<close> is compared and hashed by the address it holds, so a
  session is identified by a number.  Every \<open>throw\<close> the server can meet is a value of
  \<open>error\<close>: \<open>boost::asio::write\<close> without an \<open>error_code\<close> argument throws
  \<open>boost::system::system_error\<close>, \<open>std::stoi\<close> throws \<open>std::invalid_argument\<close> or
  \<open>std::out_of_range\<close>.
\<close>

type_synonym session = nat

datatype error = system_error | invalid_argument | out_of_range

text \<open>
  The sockets of all sessions: \<open>broken\<close> holds the sessions on whose socket a write
  fails, \<open>wire\<close> every buffer written so far, oldest first, with the session whose
  socket took it.
\<close>

record net =
  broken :: "session set"
  wire :: "(session \<times> string) list"

definition asio_write :: "session \<Rightarrow> string \<Rightarrow> net \<Rightarrow> (error + unit) \<times> net" where
  "asio_write member buf n =
     (if member \<in> broken n then (Inl system_error, n)
      else (Inr (), n\<lparr>wire := wire n @ [(member, buf)]\<rparr>))"

section \<open>ChatRoom\<close>

text \<open>
  The data members of the classes keep their names without the trailing underscore
  (\<open>members_\<close> is \<open>members\<close>, \<open>rooms_\<close> is \<open>rooms\<close>); the \<open>room_id_\<close> of a session
  is \<open>sess_room_id\<close>.

  \<open>members_\<close> is a \<open>std::unordered_set\<close>.  The list is the sequence in which a
  range-for visits it.  \<open>insert\<close> of an element already present changes nothing;
  \<open>insert\<close> of a new element may rehash, so where the element lands and how the others
  are permuted is left to the hash table: it is the parameter \<open>place\<close>.  \<open>erase\<close>
  keeps the relative order of the elements that stay.
\<close>

record ChatRoom =
  members :: "session list"

type_synonym placement = "session \<Rightarrow> session list \<Rightarrow> session list"

definition uset_insert :: "placement \<Rightarrow> session \<Rightarrow> session list \<Rightarrow> session list" where
  "uset_insert place s xs = (if s \<in> set xs then xs else place s xs)"

definition uset_erase :: "session \<Rightarrow> session list \<Rightarrow> session list" where
  "uset_erase s xs = removeAll s xs"

text \<open>What the hash table guarantees of an insertion of a new element.\<close>

definition placed :: "placement \<Rightarrow> session \<Rightarrow> session list \<Rightarrow> bool" where
  "placed place s xs \<longleftrightarrow> distinct (place s xs) \<and> set (place s xs) = insert s (set xs)"

definition new_room :: ChatRoom where
  "new_room = \<lparr>members = []\<rparr>"

text \<open>
  \<open>for (auto& member : members_) boost::asio::write(member->get_socket(), buffer(message + "\n"))\<close>:
  the first write that throws ends the loop and the exception leaves \<open>broadcast\<close>.
\<close>

fun broadcast_loop :: "session list \<Rightarrow> string \<Rightarrow> net \<Rightarrow> (error + unit) \<times> net" where
  "broadcast_loop [] message n = (Inr (), n)"
| "broadcast_loop (member # rest) message n =
     (case asio_write member (message @ [CHR 0x0A]) n of
        (Inl e, n') \<Rightarrow> (Inl e, n')
      | (Inr u, n') \<Rightarrow> broadcast_loop rest message n')"

definition broadcast :: "ChatRoom \<Rightarrow> string \<Rightarrow> net \<Rightarrow> (error + unit) \<times> net" where
  "broadcast r message n = broadcast_loop (members r) message n"

text \<open>
  \<open>join\<close> and \<open>leave\<close> change the membership first and broadcast afterwards, so the
  room is changed also when the broadcast throws.
\<close>

definition join :: "placement \<Rightarrow> ChatRoom \<Rightarrow> session \<Rightarrow> net \<Rightarrow> (error + unit) \<times> ChatRoom \<times> net" where
  "join place r session n =
     (let r' = r\<lparr>members := uset_insert place session (members r)\<rparr>
      in case broadcast r' ''A new user has joined the chat.'' n of
           (res, n') \<Rightarrow> (res, r', n'))"

definition leave :: "ChatRoom \<Rightarrow> session \<Rightarrow> net \<Rightarrow> (error + unit) \<times> ChatRoom \<times> net" where
  "leave r session n =
     (let r' = r\<lparr>members := uset_erase session (members r)\<rparr>
      in case broadcast r' ''A user has left the chat.'' n of
           (res, n') \<Rightarrow> (res, r', n'))"

definition member_count :: "ChatRoom \<Rightarrow> nat" where
  "member_count r = length (members r)"

text \<open>
  \<open>members\<close> is the only data member of \<open>ChatRoom\<close>.  No member function reads or
  writes a host, and no statement of the server writes the \<open>rooms\<close> relation whose
  column \<open>host_user_id\<close> would hold one: the host of a room is null in every state.
\<close>

definition host :: "ChatRoom \<Rightarrow> session option" where
  "host r = None"

section \<open>The room registry and the sessions\<close>

text \<open>Lines sent to \<open>cout\<close> and \<open>cerr\<close>: the sequence of values inserted before \<open>endl\<close>.\<close>

datatype tok = S string | I int

datatype out = Cout "tok list" | Cerr "tok list"

record ChatUser =
  cu_user_id :: int
  cu_endpoint :: string
  cu_port :: int
  cu_name :: string

text \<open>One row of the \<open>talks\<close> relation, without its autoincremented key.\<close>

record talk =
  room_id :: int
  user_id :: int
  talk_text :: string
  published_date :: string

text \<open>
  The database file: the rows of \<open>talks\<close>, and what the next calls of
  \<open>sqlite3_open\<close>, \<open>sqlite3_prepare_v2\<close> and \<open>sqlite3_step\<close> answer, the message of
  \<open>sqlite3_errmsg\<close> and the value of \<open>datetime('now')\<close>.
\<close>

record database =
  talks :: "talk list"
  open_ok :: bool
  prepare_ok :: bool
  step_ok :: bool
  errmsg :: string
  now :: string

text \<open>
  The server of \<open>src/chat_server_server\<close>: the three maps of \<open>ChatServer\<close>, the
  sockets, the database file and the console.
\<close>

record world =
  rooms :: "int \<rightharpoonup> ChatRoom"
  users :: "int \<rightharpoonup> ChatUser"
  sessions :: "int \<rightharpoonup> session"
  sock :: net
  db :: database
  console :: "out list"

record ChatSession =
  self :: session
  sess_room_id :: int
  buffer :: string

text \<open>
  \<open>get_or_create_room\<close> returns a reference into \<open>rooms\<close>; the model returns the room
  and the world in which it is registered, and the caller stores the room back after
  changing it.
\<close>

definition get_or_create_room :: "int \<Rightarrow> world \<Rightarrow> ChatRoom \<times> world" where
  "get_or_create_room rid w =
     (case rooms w rid of
        None \<Rightarrow> (new_room, w\<lparr>rooms := (rooms w)(rid \<mapsto> new_room)\<rparr>)
      | Some r \<Rightarrow> (r, w))"

definition remove_empty_room :: "int \<Rightarrow> world \<Rightarrow> world" where
  "remove_empty_room rid w =
     (case rooms w rid of
        None \<Rightarrow> w
      | Some r \<Rightarrow>
          if member_count r = 0
          then w\<lparr>rooms := (rooms w)(rid := None),
                 console := console w @ [Cout [S ''Room '', I rid, S '' has been removed (no members).'']]\<rparr>
          else w)"

text \<open>\<open>server_.get_or_create_room(room_id_).leave(s)\<close>, the room stored back.\<close>

definition room_leave :: "int \<Rightarrow> session \<Rightarrow> world \<Rightarrow> (error + unit) \<times> world" where
  "room_leave rid s w =
     (case get_or_create_room rid w of
        (r, w1) \<Rightarrow>
          (case leave r s (sock w1) of
             (res, r', n') \<Rightarrow> (res, w1\<lparr>rooms := (rooms w1)(rid \<mapsto> r'), sock := n'\<rparr>)))"

text \<open>\<open>server_.get_or_create_room(room_id_).broadcast(message)\<close>.\<close>

definition room_broadcast :: "int \<Rightarrow> string \<Rightarrow> world \<Rightarrow> (error + unit) \<times> world" where
  "room_broadcast rid message w =
     (case get_or_create_room rid w of
        (r, w1) \<Rightarrow>
          (case broadcast r message (sock w1) of
             (res, n') \<Rightarrow> (res, w1\<lparr>sock := n'\<rparr>)))"

text \<open>
  \<open>ChatSession::leave_room\<close>: the room is looked at for removal after the leave; an
  exception of the leave skips the removal.
\<close>

definition leave_room :: "ChatSession \<Rightarrow> world \<Rightarrow> (error + unit) \<times> world" where
  "leave_room cs w =
     (case room_leave (sess_room_id cs) (self cs) w of
        (Inl e, w') \<Rightarrow> (Inl e, w')
      | (Inr u, w') \<Rightarrow> (Inr (), remove_empty_room (sess_room_id cs) w'))"

text \<open>\<open>server_.get_or_create_room(room_id_).join(s)\<close>, the room stored back.\<close>

definition room_join :: "placement \<Rightarrow> int \<Rightarrow> session \<Rightarrow> world \<Rightarrow> (error + unit) \<times> world" where
  "room_join place rid s w =
     (case get_or_create_room rid w of
        (r, w1) \<Rightarrow>
          (case join place r s (sock w1) of
             (res, r', n') \<Rightarrow> (res, w1\<lparr>rooms := (rooms w1)(rid \<mapsto> r'), sock := n'\<rparr>)))"

text \<open>
  The completion handler that \<open>ChatSession::do_read\<close> installs, run once per finished
  read: \<open>ec\<close> is the \<open>error_code\<close> of the read (\<open>None\<close> for success, else its
  message), \<open>len\<close> the number of bytes up to and including the newline.
  \<open>buffer_.substr(0, length - 1)\<close> is computed in \<open>size_t\<close>: a length of 0 wraps to
  \<open>npos\<close> and takes the whole buffer.  The handler ends by installing itself again,
  which is the next event.  On an error the session leaves its room through
  \<open>ChatRoom::leave\<close>, not through \<open>leave_room\<close>.
\<close>

definition line_of :: "string \<Rightarrow> nat \<Rightarrow> string" where
  "line_of buf len = (if len = 0 then buf else take (len - 1) buf)"

definition do_read :: "ChatSession \<Rightarrow> string option \<Rightarrow> nat \<Rightarrow> world \<Rightarrow> (error + unit) \<times> ChatSession \<times> world" where
  "do_read cs ec len w =
     (case ec of
        None \<Rightarrow>
          (let message = line_of (buffer cs) len;
               cs' = cs\<lparr>buffer := drop len (buffer cs)\<rparr>
           in case room_broadcast (sess_room_id cs) message w of
                (res, w') \<Rightarrow> (res, cs', w'))
      | Some e \<Rightarrow>
          (case room_leave (sess_room_id cs) (self cs) w of
             (res, w') \<Rightarrow> (res, cs, w')))"

section \<open>Strings and numbers of the standard library\<close>

text \<open>
  \<open>s.find(c, pos)\<close>: the index of the first \<open>c\<close> at or after \<open>pos\<close>, \<open>None\<close> for
  \<open>npos\<close>.  \<open>substr\<close> is \<open>take\<close> after \<open>drop\<close>; every call of it in the server has
  its position within the string, so the \<open>out_of_range\<close> of \<open>substr\<close> cannot occur.
\<close>

definition find_from :: "char \<Rightarrow> nat \<Rightarrow> string \<Rightarrow> nat option" where
  "find_from c pos s =
     (if c \<in> set (drop pos s)
      then Some (pos + length (takeWhile (\<lambda>x. x \<noteq> c) (drop pos s)))
      else None)"

definition substr :: "string \<Rightarrow> nat \<Rightarrow> nat \<Rightarrow> string" where
  "substr s pos n = take n (drop pos s)"

text \<open>
  \<open>std::stoi(str)\<close> is \<open>strtol\<close> in base 10 followed by a range check for \<open>int\<close>:
  white space is skipped, one sign is read, then the longest run of digits; what follows
  the digits is ignored.  No digit at all is \<open>invalid_argument\<close>, a value outside
  32 bits is \<open>out_of_range\<close>.
\<close>

definition isspace :: "char \<Rightarrow> bool" where
  "isspace c \<longleftrightarrow> c \<in> set [CHR '' '', CHR 0x09, CHR 0x0A, CHR 0x0B, CHR 0x0C, CHR 0x0D]"

definition isdigit :: "char \<Rightarrow> bool" where
  "isdigit c \<longleftrightarrow> c \<in> set ''0123456789''"

definition digit_value :: "char \<Rightarrow> int" where
  "digit_value c = int (of_char c) - 48"

fun decimal :: "int \<Rightarrow> string \<Rightarrow> int" where
  "decimal acc [] = acc"
| "decimal acc (c # cs) = decimal (10 * acc + digit_value c) cs"

definition stoi :: "string \<Rightarrow> error + int" where
  "stoi str =
     (let s1 = dropWhile isspace str;
          neg = (s1 \<noteq> [] \<and> hd s1 = CHR ''-'');
          s2 = (if s1 \<noteq> [] \<and> (hd s1 = CHR ''-'' \<or> hd s1 = CHR ''+'') then tl s1 else s1);
          ds = takeWhile isdigit s2;
          v = (if neg then - decimal 0 ds else decimal 0 ds)
      in if ds = [] then Inl invalid_argument
         else if v < - 2147483648 \<or> 2147483647 < v then Inl out_of_range
         else Inr v)"

section \<open>The first lines of a session\<close>

text \<open>
  \<open>parse_initial_data\<close> sets \<open>room_id_\<close> from the text before the first comma.  Without
  a comma it reports the line and leaves \<open>room_id_\<close> as it was.
\<close>

definition parse_initial_data :: "string \<Rightarrow> ChatSession \<Rightarrow> world \<Rightarrow> (error + unit) \<times> ChatSession \<times> world" where
  "parse_initial_data data cs w =
     (case find_from CHR '','' 0 data of
        Some comma_pos \<Rightarrow>
          (case stoi (substr data 0 comma_pos) of
             Inl e \<Rightarrow> (Inl e, cs, w)
           | Inr v \<Rightarrow> (Inr (), cs\<lparr>sess_room_id := v\<rparr>, w))
      | None \<Rightarrow> (Inr (), cs, w\<lparr>console := console w @ [Cerr [S ''Invalid data format: '', S data]]\<rparr>))"

text \<open>The completion handler of \<open>ChatSession::read_initial_data\<close>.\<close>

definition read_initial_data :: "placement \<Rightarrow> ChatSession \<Rightarrow> string option \<Rightarrow> nat \<Rightarrow> world \<Rightarrow> (error + unit) \<times> ChatSession \<times> world" where
  "read_initial_data place cs ec len w =
     (case ec of
        None \<Rightarrow>
          (let data = line_of (buffer cs) len;
               cs1 = cs\<lparr>buffer := drop len (buffer cs)\<rparr>
           in case parse_initial_data data cs1 w of
                (Inl e, cs2, w2) \<Rightarrow> (Inl e, cs2, w2)
              | (Inr u, cs2, w2) \<Rightarrow>
                  (case room_join place (sess_room_id cs2) (self cs2) w2 of
                     (res, w3) \<Rightarrow> (res, cs2, w3)))
      | Some e \<Rightarrow> (Inr (), cs, w\<lparr>console := console w @ [Cerr [S ''Error reading initial data: '', S e]]\<rparr>))"

section \<open>Persistence\<close>

text \<open>
  \<open>ChatRoom::save_message_to_db\<close>.  The text is bound with length \<open>-1\<close>, so the row
  holds the message up to its first zero byte.  Each failing call is reported on
  \<open>cerr\<close> and no row is written.
\<close>

definition save_message_to_db :: "int \<Rightarrow> int \<Rightarrow> string \<Rightarrow> database \<Rightarrow> out list \<Rightarrow> database \<times> out list" where
  "save_message_to_db rid uid message d con =
     (if \<not> open_ok d then (d, con @ [Cerr [S ''Can't open database: '', S (errmsg d)]])
      else if \<not> prepare_ok d then (d, con @ [Cerr [S ''Failed to prepare statement: '', S (errmsg d)]])
      else if \<not> step_ok d then (d, con @ [Cerr [S ''Failed to insert message: '', S (errmsg d)]])
      else (d\<lparr>talks := talks d @
                 [\<lparr>room_id = rid, user_id = uid,
                   talk_text = takeWhile (\<lambda>c. c \<noteq> CHR 0x00) message,
                   published_date = now d\<rparr>]\<rparr>, con))"

text \<open>
  The server of \<open>src/chat_server\<close> has one room and no registry; its sessions carry a
  \<open>user_id_\<close> next to the \<open>room_id_\<close>.  Its \<open>do_read\<close> handler broadcasts the line and
  then saves it; on an error the session leaves the room.
\<close>

record ChatSession1 = ChatSession +
  sess_user_id :: int

record world1 =
  room1 :: ChatRoom
  sock1 :: net
  db1 :: database
  console1 :: "out list"

definition do_read1 :: "ChatSession1 \<Rightarrow> string option \<Rightarrow> nat \<Rightarrow> world1 \<Rightarrow> (error + unit) \<times> ChatSession1 \<times> world1" where
  "do_read1 cs ec len w =
     (case ec of
        None \<Rightarrow>
          (let message = line_of (buffer cs) len;
               cs' = cs\<lparr>buffer := drop len (buffer cs)\<rparr>
           in case broadcast (room1 w) message (sock1 w) of
                (Inl e, n') \<Rightarrow> (Inl e, cs', w\<lparr>sock1 := n'\<rparr>)
              | (Inr u, n') \<Rightarrow>
                  (case save_message_to_db (sess_room_id cs) (sess_user_id cs) message (db1 w) (console1 w) of
                     (d', con') \<Rightarrow> (Inr (), cs', w\<lparr>sock1 := n', db1 := d', console1 := con'\<rparr>)))
      | Some e \<Rightarrow>
          (case leave (room1 w) (self cs) (sock1 w) of
             (res, r', n') \<Rightarrow> (res, cs, w\<lparr>room1 := r', sock1 := n'\<rparr>)))"

section \<open>The command protocol\<close>

text \<open>
  \<open>param_map[key] = value\<close> for a token with a colon: the key is the text before the
  first colon, the value the text after it.  A token without a colon stores nothing.
\<close>

definition store_pair :: "string \<Rightarrow> (string \<rightharpoonup> string) \<Rightarrow> (string \<rightharpoonup> string)" where
  "store_pair pair pm =
     (case find_from CHR '':'' 0 pair of
        None \<Rightarrow> pm
      | Some sep \<Rightarrow> pm(substr pair 0 sep \<mapsto> drop (sep + 1) pair))"

text \<open>
  \<open>while ((end = params.find('/', start)) != npos)\<close>: the loop returns the \<open>start\<close> it
  ends with and the map.
\<close>

function parse_loop :: "string \<Rightarrow> nat \<Rightarrow> (string \<rightharpoonup> string) \<Rightarrow> nat \<times> (string \<rightharpoonup> string)" where
  "parse_loop params start pm =
     (case find_from CHR ''/'' start params of
        None \<Rightarrow> (start, pm)
      | Some end' \<Rightarrow>
          parse_loop params (end' + 1) (store_pair (substr params start (end' - start)) pm))"
  by pat_completeness auto
termination
proof (relation "measure (\<lambda>(params, start, pm). length params - start)")
  show "wf (measure (\<lambda>(params, start, pm). length params - start))"
    by simp
next
  fix params :: string and start :: nat and pm :: "string \<rightharpoonup> string" and e :: nat
  assume f: "find_from CHR ''/'' start params = Some e"
  then have mem: "CHR ''/'' \<in> set (drop start params)"
    and e: "e = start + length (takeWhile (\<lambda>x. x \<noteq> CHR ''/'') (drop start params))"
    by (auto simp: find_from_def split: if_splits)
  have "c \<in> set xs \<Longrightarrow> length (takeWhile (\<lambda>x. x \<noteq> c) xs) < length xs" for c :: char and xs
    by (induction xs) auto
  from this [OF mem]
  have "length (takeWhile (\<lambda>x. x \<noteq> CHR ''/'') (drop start params)) < length (drop start params)" .
  with e have "e < length params" by simp
  with e show "((params, e + 1, store_pair (substr params start (e - start)) pm), (params, start, pm))
        \<in> measure (\<lambda>(params, start, pm). length params - start)"
    by simp
qed

declare parse_loop.simps [simp del]

definition parse_params :: "string \<Rightarrow> (string \<rightharpoonup> string)" where
  "parse_params params =
     (case parse_loop params 0 Map.empty of
        (start, pm) \<Rightarrow> if start < length params then store_pair (drop start params) pm else pm)"

text \<open>\<open>param_map[key]\<close> as a value: a key that is absent reads as the empty string.\<close>

definition at :: "(string \<rightharpoonup> string) \<Rightarrow> string \<Rightarrow> string" where
  "at pm k = (case pm k of None \<Rightarrow> [] | Some v \<Rightarrow> v)"

text \<open>
  The \<open>switch (command[0])\<close> of \<open>check_message\<close>, for a command that is not empty.  The
  result is the exception of a \<open>stoi\<close>, or the lines printed.  Every \<open>stoi\<close> of a case
  runs before its output statement.
\<close>

definition switch_command :: "string \<Rightarrow> (string \<rightharpoonup> string) \<Rightarrow> error + out list" where
  "switch_command command pm =
     (if hd command = CHR ''c'' then
        (if command = ''create_user'' then
           Inr [Cout [S ''Creating user with id: '', S (at pm ''id''),
                      S '' and password: '', S (at pm ''password'')]]
         else if command = ''create_room'' \<or> command = ''invite_user'' then
           Inr [Cout [S ''Creating room or inviting with title: '', S (at pm ''title'')]]
         else Inr [])
      else if hd command = CHR ''l'' then
        (if command = ''login_user'' then
           Inr [Cout [S ''Logging in user with id: '', S (at pm ''id''),
                      S '' and password: '', S (at pm ''password'')]]
         else Inr [])
      else if hd command = CHR ''j'' then
        (if command = ''join_room'' then
           (case stoi (at pm ''room_id'') of Inl e \<Rightarrow> Inl e | Inr rid \<Rightarrow>
              Inr [Cout [S ''Joining room with id: '', I rid]])
         else Inr [])
      else if hd command = CHR ''s'' then
        (if command = ''send_text'' then
           (case stoi (at pm ''room_id'') of Inl e \<Rightarrow> Inl e | Inr rid \<Rightarrow>
           (case stoi (at pm ''user_id'') of Inl e \<Rightarrow> Inl e | Inr uid \<Rightarrow>
              Inr [Cout [S ''User '', I uid, S '' is sending message: '', S (at pm ''text''),
                         S '' in room '', I rid]]))
         else Inr [])
      else if hd command = CHR ''e'' then
        (if command = ''exit_room'' then
           (case stoi (at pm ''room_id'') of Inl e \<Rightarrow> Inl e | Inr rid \<Rightarrow>
           (case stoi (at pm ''user_id'') of Inl e \<Rightarrow> Inl e | Inr uid \<Rightarrow>
              Inr [Cout [S ''User '', I uid, S '' is exiting room '', I rid]]))
         else Inr [])
      else if hd command = CHR ''k'' then
        (if command = ''kick_user'' then
           (case stoi (at pm ''room_id'') of Inl e \<Rightarrow> Inl e | Inr rid \<Rightarrow>
           (case stoi (at pm ''user_id'') of Inl e \<Rightarrow> Inl e | Inr uid \<Rightarrow>
           (case stoi (at pm ''target_user_id'') of Inl e \<Rightarrow> Inl e | Inr tid \<Rightarrow>
              Inr [Cout [S ''User '', I uid, S '' is kicking user '', I tid,
                         S '' from room '', I rid]])))
         else Inr [])
      else if hd command = CHR ''g'' then
        (if command = ''grant_host'' then
           (case stoi (at pm ''room_id'') of Inl e \<Rightarrow> Inl e | Inr rid \<Rightarrow>
           (case stoi (at pm ''user_id'') of Inl e \<Rightarrow> Inl e | Inr uid \<Rightarrow>
           (case stoi (at pm ''target_user_id'') of Inl e \<Rightarrow> Inl e | Inr tid \<Rightarrow>
              Inr [Cout [S ''User '', I uid, S '' is granting host role to user '', I tid,
                         S '' in room '', I rid]])))
         else Inr [])
      else Inr [Cerr [S ''Unknown command: '', S command]])"

text \<open>
  \<open>ChatServer::check_message\<close>.  It reads and writes no member of the server; what it
  leaves behind is its output, and the exception of a \<open>stoi\<close> when one is thrown.
\<close>

definition check_message :: "string \<Rightarrow> world \<Rightarrow> (error + unit) \<times> world" where
  "check_message message w =
     (case find_from CHR ''?'' 0 message of
        None \<Rightarrow>
          (Inr (), w\<lparr>console := console w @ [Cerr [S ''Invalid message format: '', S message]]\<rparr>)
      | Some delimiter_pos \<Rightarrow>
          (let command = substr message 0 delimiter_pos;
               params = drop (delimiter_pos + 1) message;
               param_map = parse_params params
           in if command = []
              then (Inr (), w\<lparr>console := console w @ [Cerr [S ''Empty command received.'']]\<rparr>)
              else (case switch_command command param_map of
                      Inl e \<Rightarrow> (Inl e, w)
                    | Inr lines \<Rightarrow> (Inr (), w\<lparr>console := console w @ lines\<rparr>))))"

text \<open>
  A server that has just started on a new database file on which every call succeeds:
  no room, no user, no session, nothing written to a socket.
\<close>

definition fresh_db :: database where
  "fresh_db = \<lparr>talks = [], open_ok = True, prepare_ok = True, step_ok = True,
               errmsg = [], now = ''2024-01-01 00:00:00''\<rparr>"

definition fresh_world :: world where
  "fresh_world = \<lparr>rooms = Map.empty, users = Map.empty, sessions = Map.empty,
                  sock = \<lparr>broken = {}, wire = []\<rparr>, db = fresh_db, console = []\<rparr>"

section \<open>The parsing rules as the specification words them\<close>

text \<open>
  Rules 2 and 3 of the command grammar, written after the specification and not after
  the code, for comparison with \<open>parse_params\<close>: the parameter section is split on
  \<open>/\<close>, each token is split on its first \<open>:\<close>, and a token without \<open>:\<close> is dropped.
  \<open>spec_pairs\<close> lists the key and value of every remaining token, in their order.
\<close>

fun split_on :: "char \<Rightarrow> string \<Rightarrow> string list" where
  "split_on c [] = [[]]"
| "split_on c (x # xs) =
     (if x = c then [] # split_on c xs
      else (x # hd (split_on c xs)) # tl (split_on c xs))"

definition split_pair :: "string \<Rightarrow> (string \<times> string) option" where
  "split_pair tok =
     (if CHR '':'' \<in> set tok
      then Some (takeWhile (\<lambda>x. x \<noteq> CHR '':'') tok, tl (dropWhile (\<lambda>x. x \<noteq> CHR '':'') tok))
      else None)"

definition spec_pairs :: "string \<Rightarrow> (string \<times> string) list" where
  "spec_pairs params = List.map_filter split_pair (split_on CHR ''/'' params)"

text \<open>
  The keys whose values a case of the switch passes to \<open>stoi\<close>, in the order of its
  statements.
\<close>

definition stoi_keys :: "string \<Rightarrow> string list" where
  "stoi_keys command =
     (if command = ''join_room'' then [''room_id'']
      else if command = ''send_text'' \<or> command = ''exit_room'' then [''room_id'', ''user_id'']
      else if command = ''kick_user'' \<or> command = ''grant_host''
      then [''room_id'', ''user_id'', ''target_user_id'']
      else [])"

text \<open>
  The exception that a sequence of \<open>stoi\<close> statements ends with: that of the first
  statement that throws, \<open>None\<close> when none does.
\<close>

fun first_error :: "(error + 'a) list \<Rightarrow> error option" where
  "first_error [] = None"
| "first_error (Inl e # rest) = Some e"
| "first_error (Inr v # rest) = first_error rest"

section \<open>Properties of ChatRoom\<close>

lemma broadcast_loop_wire:
  "broadcast_loop ms message n =
     (if set ms \<inter> broken n = {} then Inr () else Inl system_error,
      n\<lparr>wire := wire n @ map (\<lambda>m. (m, message @ [CHR 0x0A])) (takeWhile (\<lambda>m. m \<notin> broken n) ms)\<rparr>)"
proof (induction ms arbitrary: n)
  case Nil
  show ?case by simp
next
  case (Cons m ms)
  show ?case
  proof (cases "m \<in> broken n")
    case True
    then show ?thesis by (simp add: asio_write_def)
  next
    case False
    then show ?thesis by (simp add: asio_write_def Cons.IH)
  qed
qed

text \<open>
  C6, as the code has it.  \<open>broadcast\<close> writes the message and a newline to the members
  in the order in which the membership container lists them, once per member, up to the
  first member whose socket refuses the write.  If there is such a member the failure is
  raised as \<open>system_error\<close> and the members listed after it receive nothing; if there is
  none, \<open>broadcast\<close> returns normally and every member has received the line.
\<close>

theorem broadcast_delivery:
  "broadcast r message n =
     (if set (members r) \<inter> broken n = {} then Inr () else Inl system_error,
      n\<lparr>wire := wire n @ map (\<lambda>m. (m, message @ [CHR 0x0A]))
                            (takeWhile (\<lambda>m. m \<notin> broken n) (members r))\<rparr>)"
  unfolding broadcast_def by (rule broadcast_loop_wire)

text \<open>
  Witness for C6 as amended: three members, the second with a broken socket.  The first
  receives the line, the third does not, and the failure is raised.
\<close>

theorem broadcast_delivery_witness:
  "broadcast \<lparr>members = [1, 2, 3]\<rparr> ''hi'' \<lparr>broken = {2}, wire = []\<rparr>
     = (Inl system_error, \<lparr>broken = {2}, wire = [(1, ''hi'' @ [CHR 0x0A])]\<rparr>)"
  using broadcast_delivery [of "\<lparr>members = [1, 2, 3]\<rparr>" "''hi''" "\<lparr>broken = {2}, wire = []\<rparr>"]
  by simp

text \<open>
  C6 as stated fails: a delivery failure to one member does prevent delivery to the
  others, and it is raised.  In a room whose members are listed as 1, 2, with the socket
  of 1 broken, \<open>broadcast\<close> throws and writes nothing to the sound socket of 2.
\<close>

theorem broadcast_isolation_counterexample:
  "broadcast \<lparr>members = [1, 2]\<rparr> ''hi'' \<lparr>broken = {1}, wire = []\<rparr>
     = (Inl system_error, \<lparr>broken = {1}, wire = []\<rparr>)"
  by (simp add: broadcast_def asio_write_def)

text \<open>
  C5 as stated fails: the session that joins an empty room does not become its host.
  After session 7 has joined the new room, the room consists of the member 7 and has no
  host.
\<close>

theorem join_first_member_counterexample:
  "join (#) new_room 7 \<lparr>broken = {}, wire = []\<rparr>
     = (Inr (), \<lparr>members = [7]\<rparr>,
        \<lparr>broken = {}, wire = [(7, ''A new user has joined the chat.'' @ [CHR 0x0A])]\<rparr>)
   \<and> host \<lparr>members = [7]\<rparr> \<noteq> Some 7"
  by (simp add: join_def new_room_def uset_insert_def broadcast_def asio_write_def host_def)

text \<open>
  C5, as the code has it.  \<open>join(s)\<close> inserts \<open>s\<close> into the membership and records no
  host, whether the room was empty or not.  It then broadcasts the join notice over the
  new membership, that is to the members there were and to \<open>s\<close>: when none of their
  sockets is broken, \<open>join\<close> returns normally and each of them has been written the
  notice once, in the order of the container.
\<close>

theorem join_contract:
  assumes "session \<notin> set (members r) \<longrightarrow> placed place session (members r)"
      and "join place r session n = (res, r', n')"
  shows "set (members r') = insert session (set (members r))
       \<and> host r' = None
       \<and> broadcast r' ''A new user has joined the chat.'' n = (res, n')
       \<and> (insert session (set (members r)) \<inter> broken n = {} \<longrightarrow>
            res = Inr () \<and>
            wire n' = wire n @ map (\<lambda>m. (m, ''A new user has joined the chat.'' @ [CHR 0x0A])) (members r'))"
proof -
  let ?r = "r\<lparr>members := uset_insert place session (members r)\<rparr>"
  from assms(2) have r': "r' = ?r" and b: "broadcast ?r ''A new user has joined the chat.'' n = (res, n')"
    by (auto simp: join_def Let_def split: prod.splits)
  from assms(1) have s: "set (members ?r) = insert session (set (members r))"
    by (auto simp: uset_insert_def placed_def)
  have "insert session (set (members r)) \<inter> broken n = {} \<longrightarrow>
            res = Inr () \<and>
            wire n' = wire n @ map (\<lambda>m. (m, ''A new user has joined the chat.'' @ [CHR 0x0A])) (members ?r)"
  proof
    assume d: "insert session (set (members r)) \<inter> broken n = {}"
    then have all: "\<forall>m \<in> set (members ?r). m \<notin> broken n" using s by auto
    then have tw: "takeWhile (\<lambda>m. m \<notin> broken n) (members ?r) = members ?r"
      by (simp add: takeWhile_eq_all_conv)
    from d s have e: "set (members ?r) \<inter> broken n = {}" by simp
    show "res = Inr () \<and>
            wire n' = wire n @ map (\<lambda>m. (m, ''A new user has joined the chat.'' @ [CHR 0x0A])) (members ?r)"
      using b unfolding broadcast_def broadcast_loop_wire tw using e by auto
  qed
  with r' b s show ?thesis by (simp add: host_def)
qed

text \<open>
  Witness for C5 as amended: session 7 joins the room of session 3, the table placing
  it first.
\<close>

theorem join_contract_witness:
  "set (members \<lparr>members = [7, 3]\<rparr>) = insert 7 (set (members \<lparr>members = [3]\<rparr>))
   \<and> broadcast \<lparr>members = [7, 3]\<rparr> ''A new user has joined the chat.'' \<lparr>broken = {}, wire = []\<rparr>
       = (Inr (), \<lparr>broken = {}, wire = [(7, ''A new user has joined the chat.'' @ [CHR 0x0A]),
                                          (3, ''A new user has joined the chat.'' @ [CHR 0x0A])]\<rparr>)"
proof -
  have p: "7 \<notin> set (members \<lparr>members = [3]\<rparr>) \<longrightarrow> placed (#) 7 (members \<lparr>members = [3::nat]\<rparr>)"
    by (simp add: placed_def)
  have j: "join (#) \<lparr>members = [3]\<rparr> 7 \<lparr>broken = {}, wire = []\<rparr>
     = (Inr (), \<lparr>members = [7, 3]\<rparr>,
        \<lparr>broken = {}, wire = [(7, ''A new user has joined the chat.'' @ [CHR 0x0A]),
                              (3, ''A new user has joined the chat.'' @ [CHR 0x0A])]\<rparr>)"
    by (simp add: join_def uset_insert_def broadcast_def asio_write_def)
  from join_contract [OF p j] show ?thesis by simp
qed

text \<open>
  C10, as the code has it.  For a session that is already a member, \<open>join\<close> leaves the
  membership and \<open>member_count\<close> as they are, in every state, and still broadcasts the
  join notice over that membership: each member is written the notice once, in the order
  of the container, up to the first member whose socket refuses the write.  When no
  socket is broken every member receives the notice and \<open>join\<close> returns normally;
  otherwise the failure is raised and the members after the broken one receive nothing.
  The same holds of \<open>leave\<close> and the leave notice for a session that is not a member.
\<close>

theorem join_leave_idempotent:
  "(session \<in> set (members r) \<longrightarrow>
      join place r session n
        = (if set (members r) \<inter> broken n = {} then Inr () else Inl system_error, r,
           n\<lparr>wire := wire n @ map (\<lambda>m. (m, ''A new user has joined the chat.'' @ [CHR 0x0A]))
                                 (takeWhile (\<lambda>m. m \<notin> broken n) (members r))\<rparr>)
      \<and> member_count (fst (snd (join place r session n))) = member_count r
      \<and> (set (members r) \<inter> broken n = {} \<longrightarrow>
           wire (snd (snd (join place r session n)))
             = wire n @ map (\<lambda>m. (m, ''A new user has joined the chat.'' @ [CHR 0x0A])) (members r)))
   \<and> (session \<notin> set (members r) \<longrightarrow>
      leave r session n
        = (if set (members r) \<inter> broken n = {} then Inr () else Inl system_error, r,
           n\<lparr>wire := wire n @ map (\<lambda>m. (m, ''A user has left the chat.'' @ [CHR 0x0A]))
                                 (takeWhile (\<lambda>m. m \<notin> broken n) (members r))\<rparr>)
      \<and> (set (members r) \<inter> broken n = {} \<longrightarrow>
           wire (snd (snd (leave r session n)))
             = wire n @ map (\<lambda>m. (m, ''A user has left the chat.'' @ [CHR 0x0A])) (members r)))"
proof -
  have tw: "set xs \<inter> B = {} \<Longrightarrow> takeWhile (\<lambda>m. m \<notin> B) xs = xs" for xs :: "session list" and B
    by (induction xs) auto
  have j: "join place r session n
        = (if set (members r) \<inter> broken n = {} then Inr () else Inl system_error, r,
           n\<lparr>wire := wire n @ map (\<lambda>m. (m, ''A new user has joined the chat.'' @ [CHR 0x0A]))
                                 (takeWhile (\<lambda>m. m \<notin> broken n) (members r))\<rparr>)"
    if "session \<in> set (members r)"
    using that by (simp add: join_def uset_insert_def broadcast_def broadcast_loop_wire)
  have l: "leave r session n
        = (if set (members r) \<inter> broken n = {} then Inr () else Inl system_error, r,
           n\<lparr>wire := wire n @ map (\<lambda>m. (m, ''A user has left the chat.'' @ [CHR 0x0A]))
                                 (takeWhile (\<lambda>m. m \<notin> broken n) (members r))\<rparr>)"
    if "session \<notin> set (members r)"
    using that by (simp add: leave_def uset_erase_def broadcast_def broadcast_loop_wire)
  show ?thesis
    by (simp add: j l tw)
qed

text \<open>
  Witness for C10 as amended: in the room of 1 and 2 with sound sockets, a second join
  of 2 and a leave of the stranger 3 change no membership, and both members are written
  the notice.
\<close>

theorem join_leave_idempotent_witness:
  "join (#) \<lparr>members = [1, 2]\<rparr> 2 \<lparr>broken = {}, wire = []\<rparr>
     = (Inr (), \<lparr>members = [1, 2]\<rparr>,
        \<lparr>broken = {}, wire = [(1, ''A new user has joined the chat.'' @ [CHR 0x0A]),
                              (2, ''A new user has joined the chat.'' @ [CHR 0x0A])]\<rparr>)
   \<and> leave \<lparr>members = [1, 2]\<rparr> 3 \<lparr>broken = {}, wire = []\<rparr>
     = (Inr (), \<lparr>members = [1, 2]\<rparr>,
        \<lparr>broken = {}, wire = [(1, ''A user has left the chat.'' @ [CHR 0x0A]),
                              (2, ''A user has left the chat.'' @ [CHR 0x0A])]\<rparr>)"
  using join_leave_idempotent [of 2 "\<lparr>members = [1, 2]\<rparr>" "(#)" "\<lparr>broken = {}, wire = []\<rparr>"]
        join_leave_idempotent [of 3 "\<lparr>members = [1, 2]\<rparr>" "(#)" "\<lparr>broken = {}, wire = []\<rparr>"]
  by simp

text \<open>
  C10 as stated fails: the join notice is not written to all members in every state.
  In the room whose members are listed as 1, 2, with the socket of 1 broken, a second
  join of the member 2 keeps the membership, throws, and writes the notice to nobody.
\<close>

theorem join_member_broken_counterexample:
  "join (#) \<lparr>members = [1, 2]\<rparr> 2 \<lparr>broken = {1}, wire = []\<rparr>
     = (Inl system_error, \<lparr>members = [1, 2]\<rparr>, \<lparr>broken = {1}, wire = []\<rparr>)"
  by (simp add: join_def uset_insert_def broadcast_def asio_write_def)

section \<open>Properties of the registry\<close>

lemma ChatRoom_members_update: "r\<lparr>members := xs\<rparr> = \<lparr>members = xs\<rparr>" for r :: ChatRoom
  by (cases r) simp

lemma removeAll_empty_iff: "removeAll s xs = [] \<longleftrightarrow> set xs \<subseteq> {s}"
  by (induction xs) auto

lemma room_leave_registered:
  assumes "rooms w rid = Some r"
  shows "room_leave rid s w =
           (fst (broadcast \<lparr>members = removeAll s (members r)\<rparr> ''A user has left the chat.'' (sock w)),
            w\<lparr>rooms := (rooms w)(rid \<mapsto> \<lparr>members = removeAll s (members r)\<rparr>),
              sock := snd (broadcast \<lparr>members = removeAll s (members r)\<rparr> ''A user has left the chat.'' (sock w))\<rparr>)"
  using assms
  by (simp add: room_leave_def get_or_create_room_def leave_def uset_erase_def Let_def
      ChatRoom_members_update split_beta)

text \<open>\<open>remove_empty_room\<close> never removes a room that has a member.\<close>

lemma remove_empty_room_keeps:
  "rooms w rid = Some r \<Longrightarrow> members r \<noteq> [] \<Longrightarrow> rooms (remove_empty_room rid' w) rid = Some r"
  by (auto simp: remove_empty_room_def member_count_def split: option.splits)

text \<open>
  What \<open>ChatSession::leave_room\<close> does to the registry.  The session is erased from
  the membership of its room, the leave notice is broadcast to the members that remain,
  and the room is removed from the registry if no member remains; otherwise it stays
  registered with the remaining members in their order.  No other room is touched, and
  no room has a host after it.
\<close>

lemma leave_room_registry:
  assumes "leave_room cs w = (res, w')"
      and "rooms w (sess_room_id cs) = Some r"
  shows "rooms w' (sess_room_id cs) =
           (if set (members r) \<subseteq> {self cs} then None
            else Some \<lparr>members = removeAll (self cs) (members r)\<rparr>)
       \<and> (\<forall>rid. rid \<noteq> sess_room_id cs \<longrightarrow> rooms w' rid = rooms w rid)
       \<and> (\<forall>rid r'. rooms w' rid = Some r' \<longrightarrow> host r' = None)
       \<and> broadcast \<lparr>members = removeAll (self cs) (members r)\<rparr> ''A user has left the chat.'' (sock w)
           = (res, sock w')"
proof (cases "set (members r) \<subseteq> {self cs}")
  case True
  then have nil: "removeAll (self cs) (members r) = []"
    by (simp add: removeAll_empty_iff)
  from assms show ?thesis
    by (auto simp: leave_room_def room_leave_registered nil True broadcast_def
        remove_empty_room_def member_count_def host_def)
next
  case False
  then have ne: "removeAll (self cs) (members r) \<noteq> []"
    by (simp add: removeAll_empty_iff)
  from assms show ?thesis
    by (auto simp: leave_room_def room_leave_registered ne False
        remove_empty_room_def member_count_def host_def split: sum.splits prod.splits)
qed

lemma stoi_one: "stoi ''1'' = Inr 1"
  by (simp add: stoi_def isspace_def isdigit_def digit_value_def)

text \<open>
  A session whose first line is \<open>1,5\<close> joins room 1, which the server creates for it.
\<close>

lemma first_line_joins:
  "read_initial_data (#) \<lparr>self = 7, sess_room_id = 0, buffer = ''1,5'' @ [CHR 0x0A]\<rparr> None 4 fresh_world
     = (Inr (), \<lparr>self = 7, sess_room_id = 1, buffer = []\<rparr>,
        fresh_world\<lparr>rooms := [1 \<mapsto> \<lparr>members = [7]\<rparr>],
                    sock := \<lparr>broken = {}, wire = [(7, ''A new user has joined the chat.'' @ [CHR 0x0A])]\<rparr>\<rparr>)"
  by (simp add: read_initial_data_def line_of_def parse_initial_data_def find_from_def substr_def
      stoi_one room_join_def get_or_create_room_def fresh_world_def new_room_def join_def
      uset_insert_def broadcast_def asio_write_def)

text \<open>
  C2 at its failing input.  Session 7 connects to a server that has just started and
  sends \<open>1,5\<close>: room 1 is created with 7 as its only member.  Then the read of the
  session fails.  The handler of \<open>do_read\<close> calls \<open>ChatRoom::leave\<close> and nothing else,
  so room 1 stays in the registry with no member.  \<open>ChatSession::leave_room\<close>, which
  the handler does not call, would have removed it.
\<close>

theorem read_error_keeps_empty_room:
  "(case read_initial_data (#) \<lparr>self = 7, sess_room_id = 0, buffer = ''1,5'' @ [CHR 0x0A]\<rparr> None 4 fresh_world of
      (res, cs, w) \<Rightarrow>
         rooms w 1 = Some \<lparr>members = [7]\<rparr>
       \<and> rooms (snd (snd (do_read cs (Some ''End of file'') 0 w))) 1 = Some \<lparr>members = []\<rparr>
       \<and> rooms (snd (leave_room cs w)) 1 = None)"
  unfolding first_line_joins
  by (simp add: do_read_def leave_room_def room_leave_def get_or_create_room_def
      fresh_world_def leave_def uset_erase_def broadcast_def remove_empty_room_def member_count_def)

section \<open>Properties of persistence\<close>

text \<open>Neither the handler of \<open>do_read\<close> nor \<open>check_message\<close> writes the database.\<close>

lemma do_read_db: "db (snd (snd (do_read cs ec len w))) = db w"
  by (simp add: do_read_def room_broadcast_def room_leave_def get_or_create_room_def Let_def
      split: option.splits prod.splits)

lemma check_message_db: "db (snd (check_message message w)) = db w"
  by (simp add: check_message_def Let_def split: option.splits sum.splits)

text \<open>
  C4 at its failing input.  The member of room 1 sends the line
  \<open>send_text?room_id:1/user_id:1/text:hi\<close>.  In the server with the registry the
  handler of \<open>do_read\<close> broadcasts the line and appends no row to \<open>talks\<close>, and
  \<open>check_message\<close> on the same line appends none either.  The handler of the one-room
  server, which calls \<open>save_message_to_db\<close> after the broadcast, appends one row: the
  room and user of the session and the whole line as text.
\<close>

theorem send_text_not_persisted:
  "talks (db (snd (snd (do_read
      \<lparr>self = 7, sess_room_id = 1, buffer = ''send_text?room_id:1/user_id:1/text:hi'' @ [CHR 0x0A]\<rparr>
      None 38 (fresh_world\<lparr>rooms := [1 \<mapsto> \<lparr>members = [7]\<rparr>]\<rparr>))))) = []
   \<and> talks (db (snd (check_message ''send_text?room_id:1/user_id:1/text:hi'' fresh_world))) = []
   \<and> talks (db1 (snd (snd (do_read1
      \<lparr>self = 7, sess_room_id = 1, buffer = ''send_text?room_id:1/user_id:1/text:hi'' @ [CHR 0x0A],
        sess_user_id = 1\<rparr>
      None 38 \<lparr>room1 = \<lparr>members = [7]\<rparr>, sock1 = \<lparr>broken = {}, wire = []\<rparr>, db1 = fresh_db,
               console1 = []\<rparr>))))
     = [\<lparr>room_id = 1, user_id = 1, talk_text = ''send_text?room_id:1/user_id:1/text:hi'',
         published_date = ''2024-01-01 00:00:00''\<rparr>]"
  by (simp add: do_read_db check_message_db fresh_world_def fresh_db_def do_read1_def line_of_def
      broadcast_def asio_write_def save_message_to_db_def)

section \<open>Properties of the command protocol\<close>

lemma split_on_not_Nil: "split_on c xs \<noteq> []"
  by (induction xs) auto

text \<open>The second equation of \<open>split_on\<close> with the recursive call written once.\<close>

lemma split_on_Cons:
  "split_on c (x # xs) =
     (if x = c then [] # split_on c xs
      else (case split_on c xs of t # ts \<Rightarrow> (x # t) # ts))"
  using split_on_not_Nil [of c xs] by (cases "split_on c xs") simp_all

lemma split_on_none: "c \<notin> set xs \<Longrightarrow> split_on c xs = [xs]"
  by (induction xs) auto

lemma split_on_first: "c \<notin> set xs \<Longrightarrow> split_on c (xs @ c # ys) = xs # split_on c ys"
  by (induction xs) auto

lemma find_from_None: "find_from c pos s = None \<longleftrightarrow> c \<notin> set (drop pos s)"
  by (simp add: find_from_def)

lemma find_from_Some:
  assumes "find_from c pos s = Some e"
  shows "e < length s" and "pos \<le> e"
    and "drop pos s = substr s pos (e - pos) @ c # drop (e + 1) s"
    and "c \<notin> set (substr s pos (e - pos))"
proof -
  let ?t = "takeWhile (\<lambda>x. x \<noteq> c) (drop pos s)"
  from assms have mem: "c \<in> set (drop pos s)" and e: "e = pos + length ?t"
    by (auto simp: find_from_def split: if_splits)
  have lt: "c \<in> set xs \<Longrightarrow> length (takeWhile (\<lambda>x. x \<noteq> c) xs) < length xs" for xs
    by (induction xs) auto
  from lt [OF mem] e show "e < length s" by simp
  from e show "pos \<le> e" by simp
  have tk: "c \<in> set xs \<Longrightarrow> take (length (takeWhile (\<lambda>x. x \<noteq> c) xs)) xs = takeWhile (\<lambda>x. x \<noteq> c) xs" for xs
    by (induction xs) auto
  have dr: "c \<in> set xs \<Longrightarrow> drop (length (takeWhile (\<lambda>x. x \<noteq> c) xs)) xs = c # drop (Suc (length (takeWhile (\<lambda>x. x \<noteq> c) xs))) xs" for xs
    by (induction xs) auto
  have sub: "substr s pos (e - pos) = ?t"
    using tk [OF mem] e by (simp add: substr_def)
  have "drop pos s = take (length ?t) (drop pos s) @ drop (length ?t) (drop pos s)"
    by (rule append_take_drop_id [symmetric])
  also have "\<dots> = ?t @ c # drop (Suc (length ?t)) (drop pos s)"
    using tk [OF mem] dr [OF mem] by simp
  also have "drop (Suc (length ?t)) (drop pos s) = drop (e + 1) s"
    using e by (simp add: add.commute)
  finally show "drop pos s = substr s pos (e - pos) @ c # drop (e + 1) s"
    using sub by simp
  show "c \<notin> set (substr s pos (e - pos))"
    unfolding sub by (induction "drop pos s") (auto dest: set_takeWhileD)
qed

lemma store_pair_Nil: "store_pair [] pm = pm"
  by (simp add: store_pair_def find_from_def)

lemma parse_loop_split:
  "start \<le> length params \<Longrightarrow>
   (case parse_loop params start pm of
      (st, pm') \<Rightarrow> if st < length params then store_pair (drop st params) pm' else pm')
   = foldl (\<lambda>m tok. store_pair tok m) pm (split_on CHR ''/'' (drop start params))"
proof (induction params start pm rule: parse_loop.induct)
  case (1 params start pm)
  show ?case
  proof (cases "find_from CHR ''/'' start params")
    case None
    then have "CHR ''/'' \<notin> set (drop start params)" by (simp add: find_from_None)
    then have sp: "split_on CHR ''/'' (drop start params) = [drop start params]"
      by (rule split_on_none)
    have pl: "parse_loop params start pm = (start, pm)"
      using None by (subst parse_loop.simps) simp
    show ?thesis
      unfolding pl sp using "1.prems" by (simp add: store_pair_Nil)
  next
    case (Some e)
    note fs = find_from_Some [OF Some]
    have pl: "parse_loop params start pm
                = parse_loop params (e + 1) (store_pair (substr params start (e - start)) pm)"
      using Some by (subst parse_loop.simps) simp
    have sp: "split_on CHR ''/'' (drop start params)
                = substr params start (e - start) # split_on CHR ''/'' (drop (e + 1) params)"
      by (subst fs(3)) (rule split_on_first [OF fs(4)])
    from fs(1) have le: "e + 1 \<le> length params" by simp
    show ?thesis
      unfolding pl sp using "1.IH" [OF Some le] by simp
  qed
qed

lemma parse_params_split:
  "parse_params params = foldl (\<lambda>m tok. store_pair tok m) Map.empty (split_on CHR ''/'' params)"
  using parse_loop_split [of 0 params Map.empty] by (simp add: parse_params_def)

lemma store_pair_split_pair:
  "store_pair tok pm = (case split_pair tok of None \<Rightarrow> pm | Some (k, v) \<Rightarrow> pm(k \<mapsto> v))"
proof (cases "CHR '':'' \<in> set tok")
  case False
  then show ?thesis by (simp add: store_pair_def split_pair_def find_from_def)
next
  case True
  have tk: "c \<in> set xs \<Longrightarrow> take (length (takeWhile (\<lambda>x. x \<noteq> c) xs)) xs = takeWhile (\<lambda>x. x \<noteq> c) xs" for c :: char and xs
    by (induction xs) auto
  have dr: "drop (Suc (length (takeWhile (\<lambda>x. x \<noteq> c) xs))) xs = tl (dropWhile (\<lambda>x. x \<noteq> c) xs)" for c :: char and xs
    by (induction xs) auto
  from True show ?thesis
    by (simp add: store_pair_def split_pair_def find_from_def substr_def tk dr)
qed

lemma foldl_store_pairs:
  "foldl (\<lambda>m tok. store_pair tok m) pm toks
     = foldl (\<lambda>m kv. m(fst kv \<mapsto> snd kv)) pm (List.map_filter split_pair toks)"
  by (induction toks arbitrary: pm)
     (auto simp: List.map_filter_simps store_pair_split_pair split: option.splits)

lemma parse_params_spec_pairs:
  "parse_params params = foldl (\<lambda>m kv. m(fst kv \<mapsto> snd kv)) Map.empty (spec_pairs params)"
  by (simp add: parse_params_split foldl_store_pairs spec_pairs_def)

lemma foldl_update_last:
  assumes "i < length ps" and "fst (ps ! i) = k"
      and "\<forall>j. i < j \<and> j < length ps \<longrightarrow> fst (ps ! j) \<noteq> k"
  shows "foldl (\<lambda>m kv. m(fst kv \<mapsto> snd kv)) pm ps k = Some (snd (ps ! i))"
  using assms
proof (induction ps rule: rev_induct)
  case Nil
  then show ?case by simp
next
  case (snoc q qs)
  show ?case
  proof (cases "i = length qs")
    case True
    with snoc.prems show ?thesis by simp
  next
    case False
    with snoc.prems have i: "i < length qs" by simp
    from snoc.prems(3) i have q: "fst q \<noteq> k"
      by (metis length_append_singleton lessI nth_append_length)
    have later: "\<forall>j. i < j \<and> j < length qs \<longrightarrow> fst (qs ! j) \<noteq> k"
      using snoc.prems(3) by (metis length_append_singleton less_Suc_eq nth_append)
    from snoc.prems(2) i have "fst (qs ! i) = k" by (simp add: nth_append)
    from snoc.IH [OF i this later] q i show ?thesis by (simp add: nth_append)
  qed
qed

text \<open>
  C9.  If a key occurs in the parameter section, at position \<open>i\<close> of its pairs and at
  no later position, then the map that \<open>check_message\<close> builds binds the key to the
  value of that last occurrence, however often the key occurs before it.
\<close>

theorem last_occurrence_wins:
  assumes "i < length (spec_pairs params)"
      and "fst (spec_pairs params ! i) = k"
      and "\<forall>j. i < j \<and> j < length (spec_pairs params) \<longrightarrow> fst (spec_pairs params ! j) \<noteq> k"
  shows "parse_params params k = Some (snd (spec_pairs params ! i))"
  unfolding parse_params_spec_pairs by (rule foldl_update_last [OF assms])

lemma spec_pairs_example:
  "spec_pairs ''id:a/x/id:b/pw:c'' = [(''id'', ''a''), (''id'', ''b''), (''pw'', ''c'')]"
  by (simp add: spec_pairs_def split_pair_def List.map_filter_simps)

text \<open>
  Witness for C9: the key \<open>id\<close> occurs twice, a token without colon between the two
  occurrences; the map holds the second value.
\<close>

theorem last_occurrence_wins_witness:
  "parse_params ''id:a/x/id:b/pw:c'' ''id'' = Some ''b''"
proof -
  have "\<forall>j. 1 < j \<and> j < length (spec_pairs ''id:a/x/id:b/pw:c'') \<longrightarrow> fst (spec_pairs ''id:a/x/id:b/pw:c'' ! j) \<noteq> ''id''"
    by (auto simp: spec_pairs_example less_Suc_eq numeral_3_eq_3)
  from last_occurrence_wins [of 1 "''id:a/x/id:b/pw:c''" "''id''", OF _ _ this]
  show ?thesis by (simp add: spec_pairs_example)
qed

lemma find_from_command:
  "c \<notin> set command \<Longrightarrow> find_from c 0 (command @ c # params) = Some (length command)"
  by (induction command) (auto simp: find_from_def)

lemma check_message_split:
  assumes "CHR ''?'' \<notin> set command"
  shows "check_message (command @ CHR ''?'' # params) w =
           (if command = []
            then (Inr (), w\<lparr>console := console w @ [Cerr [S ''Empty command received.'']]\<rparr>)
            else (case switch_command command (parse_params params) of
                    Inl e \<Rightarrow> (Inl e, w)
                  | Inr lines \<Rightarrow> (Inr (), w\<lparr>console := console w @ lines\<rparr>)))"
  using find_from_command [OF assms, of params]
  by (simp add: check_message_def substr_def Let_def)

text \<open>
  C8.  On a line without \<open>?\<close>, \<open>check_message\<close> writes
  \<open>Invalid message format:\<close> and the line to \<open>cerr\<close> and returns normally: no
  exception leaves it, and the rooms, users, sessions, sockets and database are as
  before.
\<close>

theorem malformed_message:
  assumes "CHR ''?'' \<notin> set message"
  shows "check_message message w
           = (Inr (), w\<lparr>console := console w @ [Cerr [S ''Invalid message format: '', S message]]\<rparr>)"
  using assms by (simp add: check_message_def find_from_def)

text \<open>Witness for C8: the line \<open>hello\<close>.\<close>

theorem malformed_message_witness:
  "check_message ''hello'' fresh_world
     = (Inr (), fresh_world\<lparr>console := [Cerr [S ''Invalid message format: '', S ''hello'']]\<rparr>)"
  using malformed_message [of "''hello''" fresh_world] by (simp add: fresh_world_def)

text \<open>
  The \<open>default\<close> label of the switch is reached by the commands whose first character
  is none of \<open>c l j s e k g\<close>, and only by them.  \<open>invite_user\<close> is one of them: the
  comparison with it stands under the label \<open>'c'\<close>.  A command that begins with one of
  the seven characters and is none of the eight names compared under them falls through
  its label without any output.
\<close>

lemma switch_command_default:
  assumes "hd command \<notin> set ''cljsekg''"
  shows "switch_command command pm = Inr [Cerr [S ''Unknown command: '', S command]]"
  using assms by (simp add: switch_command_def)

lemma unknown_command_reported:
  assumes "CHR ''?'' \<notin> set command" and "command \<noteq> []" and "hd command \<notin> set ''cljsekg''"
  shows "check_message (command @ CHR ''?'' # params) w
           = (Inr (), w\<lparr>console := console w @ [Cerr [S ''Unknown command: '', S command]]\<rparr>)"
  using assms(2) by (simp add: check_message_split [OF assms(1)] switch_command_default [OF assms(3)])

lemma invite_user_unknown:
  "check_message (''invite_user'' @ CHR ''?'' # params) w
     = (Inr (), w\<lparr>console := console w @ [Cerr [S ''Unknown command: '', S ''invite_user'']]\<rparr>)"
  using unknown_command_reported [of "''invite_user''" params w] by simp

lemma switch_command_silent:
  assumes "hd command \<in> set ''cljsekg''"
      and "command \<notin> set [''create_user'', ''create_room'', ''login_user'', ''join_room'',
                            ''send_text'', ''exit_room'', ''kick_user'', ''grant_host'']"
  shows "switch_command command pm = Inr []"
proof -
  from assms(2) have ne: "command \<noteq> ''create_user''" "command \<noteq> ''create_room''"
    "command \<noteq> ''login_user''" "command \<noteq> ''join_room''" "command \<noteq> ''send_text''"
    "command \<noteq> ''exit_room''" "command \<noteq> ''kick_user''" "command \<noteq> ''grant_host''"
    by simp_all
  from assms(1) consider "hd command = CHR ''c''" | "hd command = CHR ''l''"
    | "hd command = CHR ''j''" | "hd command = CHR ''s''" | "hd command = CHR ''e''"
    | "hd command = CHR ''k''" | "hd command = CHR ''g''"
    by auto
  then show ?thesis
  proof cases
    case 1
    have "command \<noteq> ''invite_user''" using 1 by auto
    with 1 ne show ?thesis unfolding switch_command_def by simp
  next
    case 2 with ne show ?thesis unfolding switch_command_def by simp
  next
    case 3 with ne show ?thesis unfolding switch_command_def by simp
  next
    case 4 with ne show ?thesis unfolding switch_command_def by simp
  next
    case 5 with ne show ?thesis unfolding switch_command_def by simp
  next
    case 6 with ne show ?thesis unfolding switch_command_def by simp
  next
    case 7 with ne show ?thesis unfolding switch_command_def by simp
  qed
qed

lemma same_first_letter_silent:
  assumes "CHR ''?'' \<notin> set command" and "command \<noteq> []" and "hd command \<in> set ''cljsekg''"
      and "command \<notin> set [''create_user'', ''create_room'', ''login_user'', ''join_room'',
                            ''send_text'', ''exit_room'', ''kick_user'', ''grant_host'']"
  shows "check_message (command @ CHR ''?'' # params) w = (Inr (), w)"
  using assms(2) by (simp add: check_message_split [OF assms(1)] switch_command_silent [OF assms(3,4)])

text \<open>
  C3 at its failing input: the line \<open>create_x?a:b\<close>.  The command is not a recognized
  one, and \<open>check_message\<close> reports nothing: the console is as before, and so is the
  rest of the server.
\<close>

theorem create_x_not_reported:
  "check_message ''create_x?a:b'' fresh_world = (Inr (), fresh_world)"
  using same_first_letter_silent [of "''create_x''" "''a:b''" fresh_world] by simp

lemma stoi_Nil: "stoi [] = Inl invalid_argument"
  by (simp add: stoi_def)

lemma at_None: "pm k = None \<Longrightarrow> at pm k = []"
  by (simp add: at_def)

lemma switch_create_user:
  "switch_command ''create_user'' pm
     = Inr [Cout [S ''Creating user with id: '', S (at pm ''id''),
                  S '' and password: '', S (at pm ''password'')]]"
  by (simp add: switch_command_def)

lemma switch_login_user:
  "switch_command ''login_user'' pm
     = Inr [Cout [S ''Logging in user with id: '', S (at pm ''id''),
                  S '' and password: '', S (at pm ''password'')]]"
  by (simp add: switch_command_def)

lemma switch_create_room:
  "switch_command ''create_room'' pm
     = Inr [Cout [S ''Creating room or inviting with title: '', S (at pm ''title'')]]"
  by (simp add: switch_command_def)

lemma switch_join_room:
  "switch_command ''join_room'' pm
     = (case stoi (at pm ''room_id'') of Inl e \<Rightarrow> Inl e | Inr rid \<Rightarrow>
          Inr [Cout [S ''Joining room with id: '', I rid]])"
  by (simp add: switch_command_def)

lemma switch_send_text:
  "switch_command ''send_text'' pm
     = (case stoi (at pm ''room_id'') of Inl e \<Rightarrow> Inl e | Inr rid \<Rightarrow>
       (case stoi (at pm ''user_id'') of Inl e \<Rightarrow> Inl e | Inr uid \<Rightarrow>
          Inr [Cout [S ''User '', I uid, S '' is sending message: '', S (at pm ''text''),
                     S '' in room '', I rid]]))"
  by (simp add: switch_command_def)

lemma switch_exit_room:
  "switch_command ''exit_room'' pm
     = (case stoi (at pm ''room_id'') of Inl e \<Rightarrow> Inl e | Inr rid \<Rightarrow>
       (case stoi (at pm ''user_id'') of Inl e \<Rightarrow> Inl e | Inr uid \<Rightarrow>
          Inr [Cout [S ''User '', I uid, S '' is exiting room '', I rid]]))"
  by (simp add: switch_command_def)

lemma switch_kick_user:
  "switch_command ''kick_user'' pm
     = (case stoi (at pm ''room_id'') of Inl e \<Rightarrow> Inl e | Inr rid \<Rightarrow>
       (case stoi (at pm ''user_id'') of Inl e \<Rightarrow> Inl e | Inr uid \<Rightarrow>
       (case stoi (at pm ''target_user_id'') of Inl e \<Rightarrow> Inl e | Inr tid \<Rightarrow>
          Inr [Cout [S ''User '', I uid, S '' is kicking user '', I tid,
                     S '' from room '', I rid]])))"
  by (simp add: switch_command_def)

lemma switch_grant_host:
  "switch_command ''grant_host'' pm
     = (case stoi (at pm ''room_id'') of Inl e \<Rightarrow> Inl e | Inr rid \<Rightarrow>
       (case stoi (at pm ''user_id'') of Inl e \<Rightarrow> Inl e | Inr uid \<Rightarrow>
       (case stoi (at pm ''target_user_id'') of Inl e \<Rightarrow> Inl e | Inr tid \<Rightarrow>
          Inr [Cout [S ''User '', I uid, S '' is granting host role to user '', I tid,
                     S '' in room '', I rid]])))"
  by (simp add: switch_command_def)

lemma stoi_keys_commands:
  assumes "stoi_keys command \<noteq> []"
  obtains "command = ''join_room''" | "command = ''send_text''" | "command = ''exit_room''"
  | "command = ''kick_user''" | "command = ''grant_host''"
proof (cases "command = ''join_room''")
  case True
  with that(1) show ?thesis by blast
next
  case nj: False
  show ?thesis
  proof (cases "command = ''send_text'' \<or> command = ''exit_room''")
    case True
    with that(2,3) show ?thesis by blast
  next
    case ns: False
    show ?thesis
    proof (cases "command = ''kick_user'' \<or> command = ''grant_host''")
      case True
      with that(4,5) show ?thesis by blast
    next
      case False
      with nj ns assms show ?thesis unfolding stoi_keys_def by simp
    qed
  qed
qed

text \<open>
  A case of the switch that reads numbers ends with the exception of its first \<open>stoi\<close>
  that throws, and prints its line when none throws.
\<close>

lemma switch_numeric:
  assumes "stoi_keys command \<noteq> []"
  shows "(case first_error (map (\<lambda>k. stoi (at pm k)) (stoi_keys command)) of
            Some e \<Rightarrow> switch_command command pm = Inl e
          | None \<Rightarrow> (\<exists>line. switch_command command pm = Inr [Cout line]))"
  using assms
proof (cases rule: stoi_keys_commands)
  case 1
  have k: "stoi_keys ''join_room'' = [''room_id'']" by (simp add: stoi_keys_def)
  show ?thesis unfolding 1 k switch_join_room
    by (cases "stoi (at pm ''room_id'')") simp_all
next
  case 2
  have k: "stoi_keys ''send_text'' = [''room_id'', ''user_id'']" by (simp add: stoi_keys_def)
  show ?thesis unfolding 2 k switch_send_text
    by (cases "stoi (at pm ''room_id'')"; cases "stoi (at pm ''user_id'')") simp_all
next
  case 3
  have k: "stoi_keys ''exit_room'' = [''room_id'', ''user_id'']" by (simp add: stoi_keys_def)
  show ?thesis unfolding 3 k switch_exit_room
    by (cases "stoi (at pm ''room_id'')"; cases "stoi (at pm ''user_id'')") simp_all
next
  case 4
  have k: "stoi_keys ''kick_user'' = [''room_id'', ''user_id'', ''target_user_id'']"
    by (simp add: stoi_keys_def)
  show ?thesis unfolding 4 k switch_kick_user
    by (cases "stoi (at pm ''room_id'')"; cases "stoi (at pm ''user_id'')";
        cases "stoi (at pm ''target_user_id'')") simp_all
next
  case 5
  have k: "stoi_keys ''grant_host'' = [''room_id'', ''user_id'', ''target_user_id'']"
    by (simp add: stoi_keys_def)
  show ?thesis unfolding 5 k switch_grant_host
    by (cases "stoi (at pm ''room_id'')"; cases "stoi (at pm ''user_id'')";
        cases "stoi (at pm ''target_user_id'')") simp_all
qed

lemma first_error_exists:
  "k \<in> set ks \<Longrightarrow> f k = Inl e \<Longrightarrow> \<exists>e' k'. first_error (map f ks) = Some e' \<and> k' \<in> set ks \<and> f k' = Inl e'"
proof (induction ks)
  case Nil
  then show ?case by simp
next
  case (Cons a ks)
  show ?case
  proof (cases "f a")
    case (Inl x)
    then show ?thesis by auto
  next
    case (Inr v)
    with Cons.prems have "k \<in> set ks" by auto
    from Cons.IH [OF this Cons.prems(2)] Inr show ?thesis by auto
  qed
qed

lemma first_error_takeWhile:
  "k \<in> set ks \<Longrightarrow> f k = Inl e \<Longrightarrow>
   first_error (map f (takeWhile (\<lambda>k'. k' \<noteq> k) ks)) = None \<Longrightarrow>
   first_error (map f ks) = Some e"
proof (induction ks)
  case Nil
  then show ?case by simp
next
  case (Cons a ks)
  show ?case
  proof (cases "a = k")
    case True
    with Cons.prems(2) show ?thesis by simp
  next
    case False
    with Cons.prems(3) obtain v where v: "f a = Inr v"
      by (cases "f a") simp_all
    from False Cons.prems(1) have "k \<in> set ks" by simp
    moreover from False Cons.prems(3) v
    have "first_error (map f (takeWhile (\<lambda>k'. k' \<noteq> k) ks)) = None" by simp
    ultimately show ?thesis using Cons.IH Cons.prems(2) v by simp
  qed
qed

lemma stoi_error_kind: "stoi str = Inl e \<Longrightarrow> e = invalid_argument \<or> e = out_of_range"
  by (auto simp: stoi_def Let_def split: if_splits)

text \<open>
  C7, as the code has it.  A key that is absent from the parameter map reads as the empty
  string, which \<open>stoi\<close> rejects with \<open>invalid_argument\<close>.  \<open>join_room\<close>,
  \<open>send_text\<close>, \<open>exit_room\<close>, \<open>kick_user\<close> and \<open>grant_host\<close> pass their numeric keys
  to \<open>stoi\<close> one after the other before they print: \<open>check_message\<close> ends with the
  exception of the first of these \<open>stoi\<close> that throws, with no output and the server
  unchanged, and prints its one line when none throws.  So a numeric key that is absent
  or has a value that \<open>stoi\<close> rejects always ends \<open>check_message\<close> with
  \<open>invalid_argument\<close> or \<open>out_of_range\<close>, and with the exception of that very key
  when the keys read before it are accepted.  In \<open>create_user\<close>, \<open>login_user\<close> and
  \<open>create_room\<close> no key is checked: the handler prints its line with whatever the map
  gives, the empty string for an absent key, and returns normally.
\<close>

theorem missing_parameter:
  assumes "CHR ''?'' \<notin> set command"
  shows "(stoi_keys command \<noteq> [] \<longrightarrow>
            (case first_error (map (\<lambda>k. stoi (at (parse_params params) k)) (stoi_keys command)) of
               Some e \<Rightarrow> check_message (command @ CHR ''?'' # params) w = (Inl e, w)
             | None \<Rightarrow> (\<exists>line. check_message (command @ CHR ''?'' # params) w
                                 = (Inr (), w\<lparr>console := console w @ [Cout line]\<rparr>))))
       \<and> (k \<in> set (stoi_keys command) \<longrightarrow>
            (parse_params params k = None \<or> (\<exists>e. stoi (at (parse_params params) k) = Inl e)) \<longrightarrow>
            (\<exists>e. (e = invalid_argument \<or> e = out_of_range)
                \<and> first_error (map (\<lambda>k. stoi (at (parse_params params) k)) (stoi_keys command)) = Some e
                \<and> check_message (command @ CHR ''?'' # params) w = (Inl e, w)))
       \<and> (k \<in> set (stoi_keys command) \<longrightarrow>
            first_error (map (\<lambda>k. stoi (at (parse_params params) k))
                             (takeWhile (\<lambda>k'. k' \<noteq> k) (stoi_keys command))) = None \<longrightarrow>
            (\<forall>e. stoi (at (parse_params params) k) = Inl e \<longrightarrow>
                 check_message (command @ CHR ''?'' # params) w = (Inl e, w)))
       \<and> (parse_params params k = None \<longrightarrow>
            at (parse_params params) k = [] \<and> stoi (at (parse_params params) k) = Inl invalid_argument)
       \<and> (command = ''create_user'' \<longrightarrow>
            check_message (command @ CHR ''?'' # params) w
              = (Inr (), w\<lparr>console := console w @
                   [Cout [S ''Creating user with id: '', S (at (parse_params params) ''id''),
                          S '' and password: '', S (at (parse_params params) ''password'')]]\<rparr>))
       \<and> (command = ''login_user'' \<longrightarrow>
            check_message (command @ CHR ''?'' # params) w
              = (Inr (), w\<lparr>console := console w @
                   [Cout [S ''Logging in user with id: '', S (at (parse_params params) ''id''),
                          S '' and password: '', S (at (parse_params params) ''password'')]]\<rparr>))
       \<and> (command = ''create_room'' \<longrightarrow>
            check_message (command @ CHR ''?'' # params) w
              = (Inr (), w\<lparr>console := console w @
                   [Cout [S ''Creating room or inviting with title: '',
                          S (at (parse_params params) ''title'')]]\<rparr>))"
proof -
  let ?pm = "parse_params params"
  let ?errs = "first_error (map (\<lambda>k. stoi (at ?pm k)) (stoi_keys command))"
  let ?msg = "command @ CHR ''?'' # params"
  note split = check_message_split [OF assms, of params w]
  have ne: "command \<noteq> []" if "stoi_keys command \<noteq> []"
    using that by (cases rule: stoi_keys_commands) simp_all
  have all: "(case ?errs of
               Some e \<Rightarrow> check_message ?msg w = (Inl e, w)
             | None \<Rightarrow> (\<exists>line. check_message ?msg w
                                 = (Inr (), w\<lparr>console := console w @ [Cout line]\<rparr>)))"
    if k: "stoi_keys command \<noteq> []"
  proof (cases ?errs)
    case None
    with switch_numeric [OF k, of ?pm] obtain line where
      "switch_command command ?pm = Inr [Cout line]" by auto
    with None ne [OF k] show ?thesis by (auto simp: split)
  next
    case (Some e)
    with switch_numeric [OF k, of ?pm] have "switch_command command ?pm = Inl e" by simp
    with Some ne [OF k] show ?thesis by (simp add: split)
  qed
  have raised: "check_message ?msg w = (Inl e, w)" if "?errs = Some e" for e
  proof -
    from that have "stoi_keys command \<noteq> []" by auto
    from all [OF this] that show ?thesis by simp
  qed
  have missing: "stoi (at ?pm k) = Inl invalid_argument" if "?pm k = None"
    using that by (simp add: at_None stoi_Nil)
  have some: "\<exists>e. (e = invalid_argument \<or> e = out_of_range) \<and> ?errs = Some e
                \<and> check_message ?msg w = (Inl e, w)"
    if k: "k \<in> set (stoi_keys command)"
      and bad: "?pm k = None \<or> (\<exists>e. stoi (at ?pm k) = Inl e)"
  proof -
    from bad missing obtain e0 where "stoi (at ?pm k) = Inl e0" by auto
    from first_error_exists [of k "stoi_keys command" "\<lambda>k. stoi (at ?pm k)", OF k this]
    obtain e' k' where e': "?errs = Some e'" and "stoi (at ?pm k') = Inl e'" by auto
    from stoi_error_kind [OF this(2)] e' raised [OF e'] show ?thesis by blast
  qed
  have this_key: "check_message ?msg w = (Inl e, w)"
    if k: "k \<in> set (stoi_keys command)"
      and before: "first_error (map (\<lambda>k. stoi (at ?pm k))
                             (takeWhile (\<lambda>k'. k' \<noteq> k) (stoi_keys command))) = None"
      and e: "stoi (at ?pm k) = Inl e" for e
    using first_error_takeWhile [of k "stoi_keys command" "\<lambda>k. stoi (at ?pm k)", OF k e before]
    by (rule raised)
  have cu: "command = ''create_user'' \<longrightarrow>
            check_message ?msg w
              = (Inr (), w\<lparr>console := console w @
                   [Cout [S ''Creating user with id: '', S (at ?pm ''id''),
                          S '' and password: '', S (at ?pm ''password'')]]\<rparr>)"
    unfolding split by (simp add: switch_create_user)
  have lu: "command = ''login_user'' \<longrightarrow>
            check_message ?msg w
              = (Inr (), w\<lparr>console := console w @
                   [Cout [S ''Logging in user with id: '', S (at ?pm ''id''),
                          S '' and password: '', S (at ?pm ''password'')]]\<rparr>)"
    unfolding split by (simp add: switch_login_user)
  have cr: "command = ''create_room'' \<longrightarrow>
            check_message ?msg w
              = (Inr (), w\<lparr>console := console w @
                   [Cout [S ''Creating room or inviting with title: '',
                          S (at ?pm ''title'')]]\<rparr>)"
    unfolding split by (simp add: switch_create_room)
  have c1: "stoi_keys command \<noteq> [] \<longrightarrow>
            (case ?errs of
               Some e \<Rightarrow> check_message ?msg w = (Inl e, w)
             | None \<Rightarrow> (\<exists>line. check_message ?msg w
                                 = (Inr (), w\<lparr>console := console w @ [Cout line]\<rparr>)))"
    by (rule impI) (rule all)
  have c2: "k \<in> set (stoi_keys command) \<longrightarrow>
            (?pm k = None \<or> (\<exists>e. stoi (at ?pm k) = Inl e)) \<longrightarrow>
            (\<exists>e. (e = invalid_argument \<or> e = out_of_range) \<and> ?errs = Some e
                \<and> check_message ?msg w = (Inl e, w))"
    by (intro impI) (rule some)
  have c3: "k \<in> set (stoi_keys command) \<longrightarrow>
            first_error (map (\<lambda>k. stoi (at ?pm k))
                             (takeWhile (\<lambda>k'. k' \<noteq> k) (stoi_keys command))) = None \<longrightarrow>
            (\<forall>e. stoi (at ?pm k) = Inl e \<longrightarrow> check_message ?msg w = (Inl e, w))"
    by (intro impI allI) (rule this_key)
  have c4: "?pm k = None \<longrightarrow> at ?pm k = [] \<and> stoi (at ?pm k) = Inl invalid_argument"
    using missing by (simp add: at_None)
  show ?thesis
    by (rule conjI [OF c1 conjI [OF c2 conjI [OF c3 conjI [OF c4 conjI [OF cu conjI [OF lu cr]]]]]])
qed

lemma stoi_too_large: "stoi ''99999999999'' = Inl out_of_range"
  by (simp add: stoi_def isspace_def isdigit_def digit_value_def)

text \<open>
  Witness for C7 as amended.  \<open>send_text\<close> without \<open>room_id\<close> ends with
  \<open>invalid_argument\<close>, the exception of its first \<open>stoi\<close>, although its \<open>user_id\<close> is
  out of range; with a \<open>room_id\<close> that is accepted it ends with the \<open>out_of_range\<close> of
  \<open>user_id\<close>; \<open>create_user\<close> without \<open>id\<close> prints its line.
\<close>

theorem missing_parameter_witness:
  "check_message ''send_text?user_id:99999999999'' fresh_world = (Inl invalid_argument, fresh_world)
   \<and> check_message ''send_text?room_id:1/user_id:99999999999'' fresh_world
       = (Inl out_of_range, fresh_world)
   \<and> check_message ''create_user?password:pw'' fresh_world
       = (Inr (), fresh_world\<lparr>console :=
            [Cout [S ''Creating user with id: '', S [], S '' and password: '', S ''pw'']]\<rparr>)"
proof -
  have q: "CHR ''?'' \<notin> set ''send_text''" "CHR ''?'' \<notin> set ''create_user''"
    by simp_all
  have keys: "stoi_keys ''send_text'' = [''room_id'', ''user_id'']"
    by (simp add: stoi_keys_def)
  have 1: "check_message ''send_text?user_id:99999999999'' fresh_world = (Inl invalid_argument, fresh_world)"
  proof -
    let ?P = "''user_id:99999999999''"
    note m = missing_parameter [where command = "''send_text''" and k = "''room_id''" and params = ?P
                                and w = fresh_world, OF q(1)]
    note this_key = m [THEN conjunct2, THEN conjunct2, THEN conjunct1]
    note absent = m [THEN conjunct2, THEN conjunct2, THEN conjunct2, THEN conjunct1]
    have a: "parse_params ?P ''room_id'' = None"
      by (simp add: parse_params_spec_pairs spec_pairs_def split_pair_def List.map_filter_simps
          split_on_Cons del: split_on.simps(2))
    note st = absent [rule_format, OF a, THEN conjunct2]
    have kin: "''room_id'' \<in> set (stoi_keys ''send_text'')"
      by (simp add: keys)
    have bef: "first_error (map (\<lambda>k. stoi (at (parse_params ?P) k))
                 (takeWhile (\<lambda>k'. k' \<noteq> ''room_id'') (stoi_keys ''send_text''))) = None"
      by (simp add: keys)
    from this_key [rule_format, OF kin bef st] show ?thesis by simp
  qed
  have 2: "check_message ''send_text?room_id:1/user_id:99999999999'' fresh_world
       = (Inl out_of_range, fresh_world)"
  proof -
    let ?P = "''room_id:1/user_id:99999999999''"
    note m = missing_parameter [where command = "''send_text''" and k = "''user_id''" and params = ?P
                                and w = fresh_world, OF q(1)]
    note this_key = m [THEN conjunct2, THEN conjunct2, THEN conjunct1]
    have c: "at (parse_params ?P) ''room_id'' = ''1''"
            "at (parse_params ?P) ''user_id'' = ''99999999999''"
      by (simp_all add: parse_params_spec_pairs spec_pairs_def split_pair_def
          List.map_filter_simps at_def split_on_Cons del: split_on.simps(2))
    have st: "stoi (at (parse_params ?P) ''user_id'') = Inl out_of_range"
      by (simp only: c stoi_too_large)
    have kin: "''user_id'' \<in> set (stoi_keys ''send_text'')"
      by (simp add: keys)
    have bef: "first_error (map (\<lambda>k. stoi (at (parse_params ?P) k))
                 (takeWhile (\<lambda>k'. k' \<noteq> ''user_id'') (stoi_keys ''send_text''))) = None"
      by (simp add: keys c stoi_one)
    from this_key [rule_format, OF kin bef st] show ?thesis by simp
  qed
  have 3: "check_message ''create_user?password:pw'' fresh_world
       = (Inr (), fresh_world\<lparr>console :=
            [Cout [S ''Creating user with id: '', S [], S '' and password: '', S ''pw'']]\<rparr>)"
  proof -
    let ?P = "''password:pw''"
    note m = missing_parameter [where command = "''create_user''" and k = "''id''" and params = ?P
                                and w = fresh_world, OF q(2)]
    note cu = m [THEN conjunct2, THEN conjunct2, THEN conjunct2, THEN conjunct2, THEN conjunct1]
    have b: "at (parse_params ?P) ''id'' = []" "at (parse_params ?P) ''password'' = ''pw''"
      by (simp_all add: parse_params_spec_pairs spec_pairs_def split_pair_def
          List.map_filter_simps at_def split_on_Cons del: split_on.simps(2))
    from cu [rule_format, OF refl] show ?thesis by (simp add: b fresh_world_def)
  qed
  from 1 2 3 show ?thesis by (intro conjI)
qed

text \<open>
  C7 as stated fails: \<open>create_user\<close> without its required key \<open>id\<close> does not fail.
  \<open>check_message\<close> returns normally after printing the line for a user with the empty
  id.
\<close>

theorem missing_parameter_counterexample:
  "check_message ''create_user?password:pw'' fresh_world
     = (Inr (), fresh_world\<lparr>console :=
          [Cout [S ''Creating user with id: '', S [], S '' and password: '', S ''pw'']]\<rparr>)"
proof -
  have b: "at (parse_params ''password:pw'') ''id'' = [] \<and> at (parse_params ''password:pw'') ''password'' = ''pw''"
    by (simp add: parse_params_spec_pairs spec_pairs_def split_pair_def List.map_filter_simps at_def)
  show ?thesis
    using check_message_split [of "''create_user''" "''password:pw''" fresh_world]
    by (simp add: b switch_create_user fresh_world_def)
qed

text \<open>\<open>stoi\<close> reads the digits a value begins with and ignores what follows them.\<close>

lemma stoi_prefix: "stoi ''12abc'' = Inr 12"
  by (simp add: stoi_def isspace_def isdigit_def digit_value_def)

end
